theory Spec2Isabelle
  imports Complex_Main
begin

section \<open>Data model\<close>

text \<open>
  The repository implements five bandit strategies in three Python modules
  (\<^verbatim>\<open>epsilon_greedy_algorithm.py\<close>, \<^verbatim>\<open>softmax_algorithm.py\<close>, \<^verbatim>\<open>ucb.py\<close>) and a Monte Carlo
  harness (\<^verbatim>\<open>test_bandit_algorithms.py\<close>).

  Conventions of the embedding:
  \<^item> a numpy \<^verbatim>\<open>float64\<close> is a \<open>real\<close>: rounding, overflow, \<^verbatim>\<open>inf\<close> and \<^verbatim>\<open>nan\<close> are outside the
    model. Where numpy would produce \<^verbatim>\<open>inf\<close> or \<^verbatim>\<open>nan\<close> from a real input (a division by zero,
    a logarithm of a non-positive number, a square root of a negative number) the model stops
    with an error value instead of continuing with a number HOL makes up;
  \<^item> the play counts are a numpy \<^verbatim>\<open>int64\<close> array, modelled as an \<open>int list\<close>: a count wraps only
    after \<open>2 ^ 63\<close> updates;
  \<^item> the \<^verbatim>\<open>counts\<close> and \<^verbatim>\<open>values\<close> of a strategy are arrays; the constructor's default \<^verbatim>\<open>None\<close> (a
    strategy on which \<^verbatim>\<open>initialize\<close> was never called) is outside the model;
  \<^item> an exception is a value \<open>Inl e\<close> of the result type.
\<close>

datatype error =
    ValueError          \<comment> \<open>raised by numpy: empty \<^verbatim>\<open>argmax\<close>, empty \<^verbatim>\<open>randint\<close> range, negative dimension\<close>
  | IndexError          \<comment> \<open>index out of bounds\<close>
  | DivisionByZero      \<comment> \<open>numpy divides by a zero count (a warning and \<^verbatim>\<open>inf\<close>/\<^verbatim>\<open>nan\<close>, not an exception)\<close>
  | NonFinite           \<comment> \<open>numpy yields \<^verbatim>\<open>inf\<close> or \<^verbatim>\<open>nan\<close> for another reason and continues\<close>

text \<open>The five classes; the fixed hyperparameter is the constructor's first argument.\<close>

datatype variant =
    EpsilonGreedy real
  | AnnealingEpsilonGreedy
  | Softmax real
  | AnnealingSoftmax
  | UCB

record strategy =
  kind :: variant
  counts :: "int list"
  "values" :: "real list"

subsection \<open>The numpy operations the code calls\<close>

text \<open>\<^verbatim>\<open>np.zeros(n)\<close>: a negative dimension raises \<^verbatim>\<open>ValueError\<close>.\<close>

definition np_zeros :: "int \<Rightarrow> error + ('a::zero) list" where
  "np_zeros n = (if n < 0 then Inl ValueError else Inr (replicate (nat n) 0))"

text \<open>Indexing an array or list of length \<open>len\<close> with an integer: negative indices count from
  the end, anything else out of range raises \<^verbatim>\<open>IndexError\<close>.\<close>

definition index :: "nat \<Rightarrow> int \<Rightarrow> error + nat" where
  "index len i =
     (let n = int len; j = (if i < 0 then n + i else i)
      in if 0 \<le> j \<and> j < n then Inr (nat j) else Inl IndexError)"

text \<open>\<^verbatim>\<open>np.argmax\<close>: the index of the first occurrence of the maximum; \<^verbatim>\<open>ValueError\<close> on an empty
  array. The scan keeps the best index seen so far and replaces it only by a strictly larger
  entry.\<close>

fun argmax_scan :: "('a::linorder) list \<Rightarrow> nat \<Rightarrow> nat \<Rightarrow> 'a \<Rightarrow> nat" where
  "argmax_scan [] i best m = best"
| "argmax_scan (x # xs) i best m =
     (if m < x then argmax_scan xs (Suc i) i x else argmax_scan xs (Suc i) best m)"

definition argmax :: "('a::linorder) list \<Rightarrow> error + nat" where
  "argmax xs = (case xs of [] \<Rightarrow> Inl ValueError | x # ys \<Rightarrow> Inr (argmax_scan ys 1 0 x))"

section \<open>initialize and update\<close>

text \<open>\<^verbatim>\<open>EpsilonGreedy.initialize\<close> (inherited by \<^verbatim>\<open>AnnealingEpsilonGreedy\<close>).\<close>

definition eg_initialize :: "strategy \<Rightarrow> int \<Rightarrow> error + strategy" where
  "eg_initialize self n_arms =
     (case np_zeros n_arms of Inl e \<Rightarrow> Inl e | Inr cs \<Rightarrow>
      (case np_zeros n_arms of Inl e \<Rightarrow> Inl e | Inr vs \<Rightarrow>
         Inr (self\<lparr>counts := cs, values := vs\<rparr>)))"

text \<open>\<^verbatim>\<open>Softmax.initialize\<close> (inherited by \<^verbatim>\<open>AnnealingSoftmax\<close>).\<close>

definition softmax_initialize :: "strategy \<Rightarrow> int \<Rightarrow> error + strategy" where
  "softmax_initialize self n_arms =
     (case np_zeros n_arms of Inl e \<Rightarrow> Inl e | Inr cs \<Rightarrow>
      (case np_zeros n_arms of Inl e \<Rightarrow> Inl e | Inr vs \<Rightarrow>
         Inr (self\<lparr>counts := cs, values := vs\<rparr>)))"

text \<open>\<^verbatim>\<open>UCB.initialize\<close>.\<close>

definition ucb_initialize :: "strategy \<Rightarrow> int \<Rightarrow> error + strategy" where
  "ucb_initialize self n_arms =
     (case np_zeros n_arms of Inl e \<Rightarrow> Inl e | Inr cs \<Rightarrow>
      (case np_zeros n_arms of Inl e \<Rightarrow> Inl e | Inr vs \<Rightarrow>
         Inr (self\<lparr>counts := cs, values := vs\<rparr>)))"

text \<open>Method dispatch on the class of the instance.\<close>

definition initialize :: "strategy \<Rightarrow> int \<Rightarrow> error + strategy" where
  "initialize self n_arms =
     (case kind self of
        EpsilonGreedy eps \<Rightarrow> eg_initialize self n_arms
      | AnnealingEpsilonGreedy \<Rightarrow> eg_initialize self n_arms
      | Softmax temp \<Rightarrow> softmax_initialize self n_arms
      | AnnealingSoftmax \<Rightarrow> softmax_initialize self n_arms
      | UCB \<Rightarrow> ucb_initialize self n_arms)"

text \<open>
  \<^verbatim>\<open>EpsilonGreedy.update\<close>: \<^verbatim>\<open>self.counts[chosen_arm] += 1\<close>, \<^verbatim>\<open>n = self.counts[chosen_arm]\<close>,
  \<^verbatim>\<open>value = self.values[chosen_arm]\<close>, \<^verbatim>\<open>new_value = value * ((n - 1) / n) + reward / n\<close>,
  \<^verbatim>\<open>self.values[chosen_arm] = new_value\<close>. The division is numpy's true division of
  \<^verbatim>\<open>int64\<close> scalars, which for \<open>n = 0\<close> gives \<^verbatim>\<open>inf\<close> or \<^verbatim>\<open>nan\<close>.
\<close>

definition eg_update :: "strategy \<Rightarrow> int \<Rightarrow> real \<Rightarrow> error + strategy" where
  "eg_update self chosen_arm reward =
     (case index (length (counts self)) chosen_arm of Inl e \<Rightarrow> Inl e | Inr i \<Rightarrow>
        let cs = (counts self)[i := counts self ! i + 1];
            n = cs ! i
        in (case index (length (values self)) chosen_arm of Inl e \<Rightarrow> Inl e | Inr j \<Rightarrow>
              let value = values self ! j
              in if n = 0 then Inl NonFinite
                 else let new_value = value * (real_of_int (n - 1) / real_of_int n)
                                        + reward / real_of_int n
                      in Inr (self\<lparr>counts := cs, values := (values self)[j := new_value]\<rparr>)))"

text \<open>\<^verbatim>\<open>Softmax.update\<close>: the same statements.\<close>

definition softmax_update :: "strategy \<Rightarrow> int \<Rightarrow> real \<Rightarrow> error + strategy" where
  "softmax_update self chosen_arm reward =
     (case index (length (counts self)) chosen_arm of Inl e \<Rightarrow> Inl e | Inr i \<Rightarrow>
        let cs = (counts self)[i := counts self ! i + 1];
            n = cs ! i
        in (case index (length (values self)) chosen_arm of Inl e \<Rightarrow> Inl e | Inr j \<Rightarrow>
              let value = values self ! j
              in if n = 0 then Inl NonFinite
                 else let new_value = value * (real_of_int (n - 1) / real_of_int n)
                                        + reward / real_of_int n
                      in Inr (self\<lparr>counts := cs, values := (values self)[j := new_value]\<rparr>)))"

text \<open>\<^verbatim>\<open>UCB.update\<close>: the same statements.\<close>

definition ucb_update :: "strategy \<Rightarrow> int \<Rightarrow> real \<Rightarrow> error + strategy" where
  "ucb_update self chosen_arm reward =
     (case index (length (counts self)) chosen_arm of Inl e \<Rightarrow> Inl e | Inr i \<Rightarrow>
        let cs = (counts self)[i := counts self ! i + 1];
            n = cs ! i
        in (case index (length (values self)) chosen_arm of Inl e \<Rightarrow> Inl e | Inr j \<Rightarrow>
              let value = values self ! j
              in if n = 0 then Inl NonFinite
                 else let new_value = value * (real_of_int (n - 1) / real_of_int n)
                                        + reward / real_of_int n
                      in Inr (self\<lparr>counts := cs, values := (values self)[j := new_value]\<rparr>)))"

definition update :: "strategy \<Rightarrow> int \<Rightarrow> real \<Rightarrow> error + strategy" where
  "update self chosen_arm reward =
     (case kind self of
        EpsilonGreedy eps \<Rightarrow> eg_update self chosen_arm reward
      | AnnealingEpsilonGreedy \<Rightarrow> eg_update self chosen_arm reward
      | Softmax temp \<Rightarrow> softmax_update self chosen_arm reward
      | AnnealingSoftmax \<Rightarrow> softmax_update self chosen_arm reward
      | UCB \<Rightarrow> ucb_update self chosen_arm reward)"

text \<open>A sequence of \<^verbatim>\<open>update(arm, reward)\<close> calls, stopping at the first exception.\<close>

fun updates :: "strategy \<Rightarrow> (int \<times> real) list \<Rightarrow> error + strategy" where
  "updates self [] = Inr self"
| "updates self ((arm, reward) # calls) =
     (case update self arm reward of Inl e \<Rightarrow> Inl e | Inr self' \<Rightarrow> updates self' calls)"



section \<open>Randomness\<close>

text \<open>
  The strategies and the arms draw from numpy's process-wide generator, which is not part of
  the repository. It is modelled as a tape of uniform draws and a read position; every call of
  \<^verbatim>\<open>np.random.random\<close>, \<^verbatim>\<open>np.random.randint\<close> and \<^verbatim>\<open>np.random.multinomial\<close> reads one draw and
  advances the position. A generator is \<open>uniform\<close> when every draw lies in \<open>[0, 1)\<close>, the range
  numpy documents for \<^verbatim>\<open>np.random.random\<close>.
\<close>

record rng =
  tape :: "nat \<Rightarrow> real"
  pos :: nat

definition uniform :: "rng \<Rightarrow> bool" where
  "uniform g \<longleftrightarrow> (\<forall>i. 0 \<le> tape g i \<and> tape g i < 1)"

definition np_random :: "rng \<Rightarrow> real \<times> rng" where
  "np_random g = (tape g (pos g), g\<lparr>pos := Suc (pos g)\<rparr>)"

text \<open>\<^verbatim>\<open>np.random.randint(low, high)\<close>: an integer of \<open>[low, high)\<close>, \<^verbatim>\<open>ValueError\<close> when the
  range is empty.\<close>

definition np_randint :: "int \<Rightarrow> int \<Rightarrow> rng \<Rightarrow> error + (int \<times> rng)" where
  "np_randint low high g =
     (if high \<le> low then Inl ValueError
      else let (u, g') = np_random g
           in Inr (low + \<lfloor>u * real_of_int (high - low)\<rfloor>, g'))"

text \<open>\<^verbatim>\<open>np.random.multinomial(1, probs, 1)\<close>: one trial, a one-hot vector over the categories.
  The category is found by walking the cumulative probabilities; the last category takes what
  is left.\<close>

fun one_trial :: "real list \<Rightarrow> real \<Rightarrow> int list" where
  "one_trial [] u = []"
| "one_trial [p] u = [1]"
| "one_trial (p # ps) u =
     (if u < p then 1 # replicate (length ps) 0 else 0 # one_trial ps (u - p))"

definition np_multinomial :: "real list \<Rightarrow> rng \<Rightarrow> int list \<times> rng" where
  "np_multinomial probs g = (let (u, g') = np_random g in (one_trial probs u, g'))"

section \<open>select\_arm\<close>

text \<open>Every \<^verbatim>\<open>select_arm\<close> returns the chosen arm together with the instance and the generator
  as the call leaves them.\<close>

text \<open>\<^verbatim>\<open>EpsilonGreedy.select_arm\<close>; \<open>epsilon\<close> is \<^verbatim>\<open>self.epsilon\<close>.\<close>

definition eg_select_arm :: "real \<Rightarrow> strategy \<Rightarrow> rng \<Rightarrow> error + (int \<times> strategy \<times> rng)" where
  "eg_select_arm epsilon self g =
     (let (z, g1) = np_random g
      in if z > epsilon
         then (case argmax (values self) of Inl e \<Rightarrow> Inl e
               | Inr a \<Rightarrow> Inr (int a, self, g1))
         else (case np_randint 0 (int (length (values self))) g1 of Inl e \<Rightarrow> Inl e
               | Inr (a, g2) \<Rightarrow> Inr (a, self, g2)))"

text \<open>The decay schedule \<^verbatim>\<open>1 / np.log(t + 0.0000001)\<close> of both annealing classes.\<close>

definition schedule :: "int \<Rightarrow> real" where
  "schedule t = 1 / ln (real_of_int t + 1 / 10 ^ 7)"

text \<open>\<^verbatim>\<open>AnnealingEpsilonGreedy.select_arm\<close>. For \<open>t + 1e-7 \<le> 0\<close> numpy's logarithm is \<^verbatim>\<open>nan\<close> or
  \<^verbatim>\<open>-inf\<close>.\<close>

definition annealing_eg_select_arm :: "strategy \<Rightarrow> rng \<Rightarrow> error + (int \<times> strategy \<times> rng)" where
  "annealing_eg_select_arm self g =
     (let t = sum_list (counts self) + 1
      in if real_of_int t + 1 / 10 ^ 7 \<le> 0 then Inl NonFinite
         else let epsilon = schedule t;
                  (z, g1) = np_random g
              in if z > epsilon
                 then (case argmax (values self) of Inl e \<Rightarrow> Inl e
                       | Inr a \<Rightarrow> Inr (int a, self, g1))
                 else (case np_randint 0 (int (length (values self))) g1 of Inl e \<Rightarrow> Inl e
                       | Inr (a, g2) \<Rightarrow> Inr (a, self, g2)))"

text \<open>\<^verbatim>\<open>Softmax.categorical_draw\<close>.\<close>

definition categorical_draw :: "real list \<Rightarrow> rng \<Rightarrow> error + (int \<times> rng)" where
  "categorical_draw probs g =
     (let (preds, g') = np_multinomial probs g
      in case argmax preds of Inl e \<Rightarrow> Inl e | Inr a \<Rightarrow> Inr (int a, g'))"

text \<open>\<^verbatim>\<open>Softmax.select_arm\<close>; \<open>temperature\<close> is \<^verbatim>\<open>self.temperature\<close>. Dividing a non-empty array
  by a zero temperature gives \<^verbatim>\<open>inf\<close> or \<^verbatim>\<open>nan\<close>.\<close>

definition softmax_select_arm :: "real \<Rightarrow> strategy \<Rightarrow> rng \<Rightarrow> error + (int \<times> strategy \<times> rng)" where
  "softmax_select_arm temperature self g =
     (if temperature = 0 \<and> values self \<noteq> [] then Inl NonFinite
      else let z = map (\<lambda>v. v / temperature) (values self);
               probs = map (\<lambda>x. exp x / sum_list (map exp z)) z
           in case categorical_draw probs g of Inl e \<Rightarrow> Inl e
              | Inr (a, g1) \<Rightarrow> Inr (a, self, g1))"

text \<open>\<^verbatim>\<open>AnnealingSoftmax.select_arm\<close>.\<close>

definition annealing_softmax_select_arm :: "strategy \<Rightarrow> rng \<Rightarrow> error + (int \<times> strategy \<times> rng)" where
  "annealing_softmax_select_arm self g =
     (let t = sum_list (counts self) + 1
      in if real_of_int t + 1 / 10 ^ 7 \<le> 0 then Inl NonFinite
         else let temperature = schedule t;
                  z = map (\<lambda>v. v / temperature) (values self);
                  probs = map (\<lambda>x. exp x / sum_list (map exp z)) z
              in case categorical_draw probs g of Inl e \<Rightarrow> Inl e
                 | Inr (a, g1) \<Rightarrow> Inr (a, self, g1))"

text \<open>\<^verbatim>\<open>UCB.select_arm\<close>, first loop: the lowest arm whose count is zero, if there is one.\<close>

fun zero_scan :: "int list \<Rightarrow> nat \<Rightarrow> nat option" where
  "zero_scan [] arm = None"
| "zero_scan (c # cs) arm = (if c = 0 then Some arm else zero_scan cs (Suc arm))"

text \<open>Second loop, one iteration: \<^verbatim>\<open>bonus = np.sqrt((2 * np.log(n)) / self.counts[arm])\<close> and
  \<^verbatim>\<open>ucb_values[arm] = self.values[arm] + bonus\<close>, for \<open>arm\<close> below \<^verbatim>\<open>len(self.counts)\<close>. The
  division by a zero count is reported whatever \<open>n\<close> is.\<close>

definition ucb_value :: "strategy \<Rightarrow> int \<Rightarrow> nat \<Rightarrow> error + real" where
  "ucb_value self n arm =
     (let c = counts self ! arm
      in if c = 0 then Inl DivisionByZero
         else if n \<le> 0 then Inl NonFinite
         else if 2 * ln (real_of_int n) / real_of_int c < 0 then Inl NonFinite
         else if length (values self) \<le> arm then Inl IndexError
         else let bonus = sqrt (2 * ln (real_of_int n) / real_of_int c)
              in Inr (values self ! arm + bonus))"

text \<open>The results of the iterations in order, up to the first that fails.\<close>

fun collect :: "(error + 'a) list \<Rightarrow> error + 'a list" where
  "collect [] = Inr []"
| "collect (r # rs) =
     (case r of Inl e \<Rightarrow> Inl e
      | Inr x \<Rightarrow> (case collect rs of Inl e \<Rightarrow> Inl e | Inr xs \<Rightarrow> Inr (x # xs)))"

definition ucb_select_arm :: "strategy \<Rightarrow> rng \<Rightarrow> error + (int \<times> strategy \<times> rng)" where
  "ucb_select_arm self g =
     (let n_arms = length (counts self)
      in case zero_scan (counts self) 0 of
           Some arm \<Rightarrow> Inr (int arm, self, g)
         | None \<Rightarrow>
             let n = sum_list (counts self)
             in (case collect (map (ucb_value self n) [0..<n_arms]) of Inl e \<Rightarrow> Inl e
                 | Inr ucb_values \<Rightarrow>
                     (case argmax ucb_values of Inl e \<Rightarrow> Inl e
                      | Inr a \<Rightarrow> Inr (int a, self, g))))"

definition select_arm :: "strategy \<Rightarrow> rng \<Rightarrow> error + (int \<times> strategy \<times> rng)" where
  "select_arm self g =
     (case kind self of
        EpsilonGreedy epsilon \<Rightarrow> eg_select_arm epsilon self g
      | AnnealingEpsilonGreedy \<Rightarrow> annealing_eg_select_arm self g
      | Softmax temperature \<Rightarrow> softmax_select_arm temperature self g
      | AnnealingSoftmax \<Rightarrow> annealing_softmax_select_arm self g
      | UCB \<Rightarrow> ucb_select_arm self g)"

text \<open>\<open>n\<close> calls of \<^verbatim>\<open>select_arm\<close> in a row, with no update in between.\<close>

fun selects :: "nat \<Rightarrow> strategy \<Rightarrow> rng \<Rightarrow> error + (int list \<times> strategy \<times> rng)" where
  "selects 0 self g = Inr ([], self, g)"
| "selects (Suc n) self g =
     (case select_arm self g of Inl e \<Rightarrow> Inl e
      | Inr (a, self1, g1) \<Rightarrow>
          (case selects n self1 g1 of Inl e \<Rightarrow> Inl e
           | Inr (as, self2, g2) \<Rightarrow> Inr (a # as, self2, g2)))"



section \<open>The simulation harness\<close>

text \<open>\<^verbatim>\<open>BernoulliArm\<close> and its \<^verbatim>\<open>draw\<close>.\<close>

datatype arm = BernoulliArm real

fun draw :: "arm \<Rightarrow> rng \<Rightarrow> real \<times> rng" where
  "draw (BernoulliArm p) g = (let (z, g') = np_random g in (if z > p then 0 else 1, g'))"







text \<open>Inputs used in the concrete checks below.\<close>

definition half_tape :: rng where
  "half_tape = \<lparr>tape = (\<lambda>i. 1 / 2), pos = 0\<rparr>"

definition zero_tape :: rng where
  "zero_tape = \<lparr>tape = (\<lambda>i. 0), pos = 0\<rparr>"

section \<open>Notions of the specification\<close>

text \<open>The first-occurring maximum of \<open>f\<close> over the indices below \<open>K\<close>: nothing is larger, and
  everything before it is strictly smaller.\<close>

definition first_maximum :: "(nat \<Rightarrow> 'a::linorder) \<Rightarrow> nat \<Rightarrow> nat \<Rightarrow> bool" where
  "first_maximum f K a \<longleftrightarrow> a < K \<and> (\<forall>j<K. f j \<le> f a) \<and> (\<forall>j<a. f j < f a)"

definition value_at :: "strategy \<Rightarrow> nat \<Rightarrow> real" where
  "value_at self j = values self ! j"


section \<open>Properties of initialize and update\<close>

lemma initialize_eq:
  "initialize self n = (if n < 0 then Inl ValueError
     else Inr (self\<lparr>counts := replicate (nat n) 0, values := replicate (nat n) 0\<rparr>))"
  by (simp add: initialize_def eg_initialize_def softmax_initialize_def ucb_initialize_def
      np_zeros_def split: variant.splits)

lemma softmax_update_eq: "softmax_update = eg_update"
  by (intro ext) (simp add: softmax_update_def eg_update_def)

lemma ucb_update_eq: "ucb_update = eg_update"
  by (intro ext) (simp add: ucb_update_def eg_update_def)

lemma update_eq: "update = eg_update"
  by (intro ext) (simp add: update_def softmax_update_eq ucb_update_eq split: variant.splits)









text \<open>
  Claim C7. For every strategy variant and every \<open>K \<ge> 1\<close>, \<^verbatim>\<open>initialize(K)\<close> succeeds from any
  prior state and leaves the play counts and the value estimates as two vectors of exactly
  \<open>K\<close> zeros; the class and its hyperparameter stay as they were.
\<close>

theorem initialize_zero_vectors:
  "1 \<le> K \<Longrightarrow>
     \<exists>s'. initialize s K = Inr s' \<and> kind s' = kind s
        \<and> length (counts s') = nat K \<and> length (values s') = nat K
        \<and> counts s' = replicate (nat K) 0 \<and> values s' = replicate (nat K) 0"
  by (simp add: initialize_eq)

theorem initialize_zero_vectors_witness:
  "(1::int) \<le> 3 \<and>
   initialize \<lparr>kind = Softmax 2, counts = [5, 1], values = [1 / 5, 1]\<rparr> 3
     = Inr \<lparr>kind = Softmax 2, counts = [0, 0, 0], values = [0, 0, 0]\<rparr>"
  using initialize_zero_vectors [of 3 "\<lparr>kind = Softmax 2, counts = [5, 1], values = [1 / 5, 1]\<rparr>"]
  by (auto simp: numeral_3_eq_3)

section \<open>Properties of argmax and of the decay schedule\<close>

lemma argmax_scan_first_maximum:
  assumes "length pre = i" "best < i" "pre ! best = m"
    and "\<forall>j<i. pre ! j \<le> m" "\<forall>j<best. pre ! j < m"
  shows "first_maximum (\<lambda>j. (pre @ xs) ! j) (length (pre @ xs)) (argmax_scan xs i best m)"
  using assms
proof (induction xs arbitrary: pre i best m)
  case Nil
  then show ?case by (simp add: first_maximum_def)
next
  case (Cons x xs)
  show ?case
  proof (cases "m < x")
    case True
    have "first_maximum (\<lambda>j. ((pre @ [x]) @ xs) ! j) (length ((pre @ [x]) @ xs))
            (argmax_scan xs (Suc i) i x)"
    proof (rule Cons.IH)
      show "length (pre @ [x]) = Suc i" using Cons.prems(1) by simp
      show "i < Suc i" by simp
      show "(pre @ [x]) ! i = x" using Cons.prems(1) by (auto simp: nth_append)
      show "\<forall>j<Suc i. (pre @ [x]) ! j \<le> x"
        using Cons.prems(1,4) True by (auto simp: nth_append less_Suc_eq intro: less_imp_le order_le_less_trans)
      show "\<forall>j<i. (pre @ [x]) ! j < x"
        using Cons.prems(1,4) True by (auto simp: nth_append intro: order_le_less_trans)
    qed
    then show ?thesis using True by simp
  next
    case False
    have "first_maximum (\<lambda>j. ((pre @ [x]) @ xs) ! j) (length ((pre @ [x]) @ xs))
            (argmax_scan xs (Suc i) best m)"
    proof (rule Cons.IH)
      show "length (pre @ [x]) = Suc i" using Cons.prems(1) by simp
      show "best < Suc i" using Cons.prems(2) by simp
      show "(pre @ [x]) ! best = m" using Cons.prems(1,2,3) by (simp add: nth_append)
      show "\<forall>j<Suc i. (pre @ [x]) ! j \<le> m"
        using Cons.prems(1,4) False by (auto simp: nth_append less_Suc_eq)
      show "\<forall>j<best. (pre @ [x]) ! j < m"
        using Cons.prems(1,2,5) by (auto simp: nth_append)
    qed
    then show ?thesis using False by simp
  qed
qed

lemma argmax_first_maximum:
  assumes "xs \<noteq> []"
  shows "\<exists>a. argmax xs = Inr a \<and> first_maximum (\<lambda>j. xs ! j) (length xs) a"
proof -
  from assms obtain x ys where xs: "xs = x # ys" by (cases xs) auto
  have "first_maximum (\<lambda>j. ([x] @ ys) ! j) (length ([x] @ ys)) (argmax_scan ys 1 0 x)"
    by (rule argmax_scan_first_maximum) simp_all
  then show ?thesis by (simp add: xs argmax_def)
qed

lemma schedule_one: "10 ^ 7 \<le> schedule 1"
proof -
  have pos: "0 < ln (1 + 1 / 10 ^ 7 :: real)" by (rule ln_gt_zero) simp
  have "ln (1 + 1 / 10 ^ 7 :: real) \<le> 1 / 10 ^ 7"
    by (rule ln_add_one_self_le_self) simp
  then have "1 / (1 / 10 ^ 7) \<le> 1 / ln (1 + 1 / 10 ^ 7 :: real)"
    using pos by (intro divide_left_mono) simp_all
  then show ?thesis by (simp add: schedule_def)
qed

section \<open>Properties of select\_arm\<close>

text \<open>
  Claim C3, as stated, fails: \<^verbatim>\<open>np.random.random()\<close> ranges over \<open>[0, 1)\<close>, and at the draw
  \<open>z = 0\<close> the test \<^verbatim>\<open>z > self.epsilon\<close> is false for \<open>epsilon = 0\<close>. With values \<open>[0, 1]\<close>
  the first-occurring maximum is arm \<open>1\<close>, and \<^verbatim>\<open>select_arm\<close> returns the arm of the
  \<^verbatim>\<open>randint\<close> draw, arm \<open>0\<close>.
\<close>

theorem eg_zero_epsilon_draw_zero_explores:
  "uniform zero_tape
   \<and> select_arm \<lparr>kind = EpsilonGreedy 0, counts = [1, 1], values = [0, 1]\<rparr> zero_tape
       = Inr (0, \<lparr>kind = EpsilonGreedy 0, counts = [1, 1], values = [0, 1]\<rparr>, zero_tape\<lparr>pos := 2\<rparr>)
   \<and> first_maximum (value_at \<lparr>kind = EpsilonGreedy 0, counts = [1, 1], values = [0, 1]\<rparr>) 2 1"
  by (simp add: uniform_def zero_tape_def select_arm_def eg_select_arm_def np_random_def
      np_randint_def first_maximum_def value_at_def less_Suc_eq numeral_2_eq_2)

text \<open>
  Claim C3, amended. For \<^verbatim>\<open>EpsilonGreedy\<close> with \<open>epsilon = 0\<close>, every state with a non-empty
  value vector and every random draw \<open>z > 0\<close>: \<^verbatim>\<open>select_arm\<close> returns the index of the
  first-occurring maximum of the value estimates, leaves the instance as it is and consumes
  that one draw.
\<close>

theorem eg_zero_epsilon_greedy:
  assumes "kind s = EpsilonGreedy 0" and "values s \<noteq> []" and "0 < tape g (pos g)"
  shows "\<exists>a. select_arm s g = Inr (int a, s, g\<lparr>pos := Suc (pos g)\<rparr>)
           \<and> first_maximum (value_at s) (length (values s)) a"
proof -
  from argmax_first_maximum [OF assms(2)]
  obtain a where a: "argmax (values s) = Inr a"
    "first_maximum (\<lambda>j. values s ! j) (length (values s)) a" by blast
  have "select_arm s g = Inr (int a, s, g\<lparr>pos := Suc (pos g)\<rparr>)"
    using assms(1,3) a(1) by (simp add: select_arm_def eg_select_arm_def np_random_def)
  moreover have "value_at s = (\<lambda>j. values s ! j)" by (intro ext) (simp add: value_at_def)
  ultimately show ?thesis using a(2) by auto
qed

theorem eg_zero_epsilon_greedy_witness:
  "select_arm \<lparr>kind = EpsilonGreedy 0, counts = [1, 1], values = [0, 1]\<rparr> half_tape
       = Inr (1, \<lparr>kind = EpsilonGreedy 0, counts = [1, 1], values = [0, 1]\<rparr>, half_tape\<lparr>pos := 1\<rparr>)
   \<and> first_maximum (value_at \<lparr>kind = EpsilonGreedy 0, counts = [1, 1], values = [0, 1]\<rparr>) 2 1"
  using eg_zero_epsilon_greedy [of "\<lparr>kind = EpsilonGreedy 0, counts = [1, 1], values = [0, 1]\<rparr>" half_tape]
  by (simp add: half_tape_def select_arm_def eg_select_arm_def np_random_def argmax_def
      first_maximum_def value_at_def less_Suc_eq numeral_2_eq_2)



text \<open>No \<^verbatim>\<open>select_arm\<close> assigns to a field of the instance.\<close>

lemma select_arm_frame: "select_arm s g = Inr (a, s', g') \<Longrightarrow> s' = s"
  by (auto simp: select_arm_def eg_select_arm_def annealing_eg_select_arm_def
      softmax_select_arm_def annealing_softmax_select_arm_def ucb_select_arm_def Let_def
      split: variant.splits if_splits sum.splits prod.splits option.splits)

lemma selects_frame: "selects n s g = Inr (as, s', g') \<Longrightarrow> s' = s \<and> length as = n"
proof (induction n arbitrary: s g as s' g')
  case 0
  then show ?case by simp
next
  case (Suc n)
  then show ?case
    by (auto split: sum.splits prod.splits dest!: select_arm_frame)
qed

text \<open>
  Claim C8. For every strategy variant and every state, a call of \<^verbatim>\<open>select_arm\<close> that returns
  leaves the play counts, the value estimates and the hyperparameter unchanged, and so does
  any number of calls in a row.
\<close>

theorem select_arm_leaves_state:
  "(select_arm s g = Inr (a, s', g') \<longrightarrow> s' = s)
   \<and> (selects n s g = Inr (as, s'', g'') \<longrightarrow> s'' = s \<and> length as = n)"
  using select_arm_frame selects_frame by blast

theorem select_arm_leaves_state_witness:
  "select_arm \<lparr>kind = UCB, counts = [1, 0], values = [1, 0]\<rparr> half_tape
     = Inr (1, \<lparr>kind = UCB, counts = [1, 0], values = [1, 0]\<rparr>, half_tape)
   \<and> selects 2 \<lparr>kind = UCB, counts = [1, 0], values = [1, 0]\<rparr> half_tape
     = Inr ([1, 1], \<lparr>kind = UCB, counts = [1, 0], values = [1, 0]\<rparr>, half_tape)"
  using select_arm_leaves_state [of "\<lparr>kind = UCB, counts = [1, 0], values = [1, 0]\<rparr>" half_tape 1
      "\<lparr>kind = UCB, counts = [1, 0], values = [1, 0]\<rparr>" half_tape 2 "[1, 1]"
      "\<lparr>kind = UCB, counts = [1, 0], values = [1, 0]\<rparr>" half_tape]
  by (simp add: select_arm_def ucb_select_arm_def numeral_2_eq_2)



lemma np_randint_uniform:
  assumes "uniform g" "0 < n"
  shows "\<exists>a g2. np_randint 0 (int n) g = Inr (a, g2) \<and> 0 \<le> a \<and> a < int n
           \<and> g2 = g\<lparr>pos := Suc (pos g)\<rparr>"
proof -
  define u where "u = tape g (pos g)"
  have u: "0 \<le> u" "u < 1" using assms(1) by (simp_all add: uniform_def u_def)
  have "u * real n < real n" using u(2) assms(2) by simp
  then have "\<lfloor>u * real n\<rfloor> < int n" by (simp add: floor_less_iff)
  moreover have "0 \<le> \<lfloor>u * real n\<rfloor>" using u(1) by simp
  ultimately show ?thesis using assms(2)
    by (simp add: np_randint_def np_random_def u_def)
qed

lemma uniform_advance: "uniform g \<Longrightarrow> uniform (g\<lparr>pos := k\<rparr>)"
  by (simp add: uniform_def)

text \<open>
  Claim C10. For \<^verbatim>\<open>AnnealingEpsilonGreedy\<close> after \<^verbatim>\<open>initialize(K)\<close> with \<open>K \<ge> 1\<close>, all counts are
  zero, so \<open>t = 1\<close> and the computed epsilon \<open>1 / ln (1 + 1e-7)\<close> exceeds \<open>1\<close>. No uniform draw
  exceeds it: \<^verbatim>\<open>select_arm\<close> returns the arm of the \<^verbatim>\<open>randint\<close> draw, an index of \<open>[0, K)\<close>,
  and it would do so whatever the value estimates \<open>vs\<close> were; the maximum-value branch is
  not taken.
\<close>

theorem annealing_eg_first_call_explores:
  assumes "kind s0 = AnnealingEpsilonGreedy" and "1 \<le> K" and "initialize s0 K = Inr s"
    and "uniform g" and "vs \<noteq> []"
  shows "1 < schedule (sum_list (counts s) + 1)
     \<and> (\<exists>a g2. np_randint 0 (int (length vs)) (snd (np_random g)) = Inr (a, g2)
           \<and> 0 \<le> a \<and> a < int (length vs)
           \<and> select_arm (s\<lparr>values := vs\<rparr>) g = Inr (a, s\<lparr>values := vs\<rparr>, g2))
     \<and> (\<exists>a g2. np_randint 0 K (snd (np_random g)) = Inr (a, g2)
           \<and> 0 \<le> a \<and> a < K \<and> select_arm s g = Inr (a, s, g2))"
proof -
  from assms(2,3) have s: "s = s0\<lparr>counts := replicate (nat K) 0, values := replicate (nat K) 0\<rparr>"
    by (simp add: initialize_eq split: if_splits)
  have t: "sum_list (counts s) + 1 = 1" by (simp add: s sum_list_replicate)
  have big: "1 < schedule 1" using schedule_one by (rule order_less_le_trans [rotated]) simp
  have z: "tape g (pos g) < schedule 1"
    using assms(4) big by (auto simp: uniform_def intro: less_trans)
  have kind: "kind s = AnnealingEpsilonGreedy" using assms(1) by (simp add: s)
  have sel: "select_arm (s\<lparr>values := ws\<rparr>) g =
      (case np_randint 0 (int (length ws)) (snd (np_random g)) of Inl e \<Rightarrow> Inl e
       | Inr (a, g2) \<Rightarrow> Inr (a, s\<lparr>values := ws\<rparr>, g2))" for ws
    using kind z t by (simp add: select_arm_def annealing_eg_select_arm_def np_random_def Let_def)
  have draw: "\<exists>a g2. np_randint 0 (int (length ws)) (snd (np_random g)) = Inr (a, g2)
           \<and> 0 \<le> a \<and> a < int (length ws)
           \<and> select_arm (s\<lparr>values := ws\<rparr>) g = Inr (a, s\<lparr>values := ws\<rparr>, g2)" if "ws \<noteq> []" for ws
  proof -
    have "uniform (snd (np_random g))" using assms(4) by (simp add: np_random_def uniform_advance)
    moreover have "0 < length ws" using that by simp
    ultimately obtain a g2 where "np_randint 0 (int (length ws)) (snd (np_random g)) = Inr (a, g2)"
      "0 \<le> a" "a < int (length ws)"
      using np_randint_uniform by blast
    then show ?thesis using sel [of ws] by simp
  qed
  have "values s \<noteq> []" using assms(2) by (simp add: s)
  from draw [OF this] have last: "\<exists>a g2. np_randint 0 K (snd (np_random g)) = Inr (a, g2)
           \<and> 0 \<le> a \<and> a < K \<and> select_arm s g = Inr (a, s, g2)"
    using assms(2) by (simp add: s)
  show ?thesis using big t draw [OF assms(5)] last by simp
qed

theorem annealing_eg_first_call_explores_witness:
  "initialize \<lparr>kind = AnnealingEpsilonGreedy, counts = [], values = []\<rparr> 2
     = Inr \<lparr>kind = AnnealingEpsilonGreedy, counts = [0, 0], values = [0, 0]\<rparr>
   \<and> uniform half_tape
   \<and> 1 < schedule (sum_list [0, 0] + 1)
   \<and> select_arm \<lparr>kind = AnnealingEpsilonGreedy, counts = [0, 0], values = [5, 0]\<rparr> half_tape
     = Inr (1, \<lparr>kind = AnnealingEpsilonGreedy, counts = [0, 0], values = [5, 0]\<rparr>,
            half_tape\<lparr>pos := 2\<rparr>)
   \<and> select_arm \<lparr>kind = AnnealingEpsilonGreedy, counts = [0, 0], values = [0, 0]\<rparr> half_tape
     = Inr (1, \<lparr>kind = AnnealingEpsilonGreedy, counts = [0, 0], values = [0, 0]\<rparr>,
            half_tape\<lparr>pos := 2\<rparr>)"
  using annealing_eg_first_call_explores
    [of "\<lparr>kind = AnnealingEpsilonGreedy, counts = [], values = []\<rparr>" 2
      "\<lparr>kind = AnnealingEpsilonGreedy, counts = [0, 0], values = [0, 0]\<rparr>" half_tape "[5, 0]"]
  by (auto simp: initialize_eq numeral_2_eq_2 uniform_def half_tape_def np_randint_def
      np_random_def)

section \<open>Properties of UCB\<close>

lemma zero_scan_None: "zero_scan cs k = None \<longleftrightarrow> 0 \<notin> set cs"
  by (induction cs arbitrary: k) auto

lemma zero_scan_Some:
  "zero_scan cs k = Some arm \<Longrightarrow>
     k \<le> arm \<and> arm - k < length cs \<and> cs ! (arm - k) = 0 \<and> (\<forall>j<arm - k. cs ! j \<noteq> 0)"
proof (induction cs arbitrary: k)
  case Nil
  then show ?case by simp
next
  case (Cons c cs)
  show ?case
  proof (cases "c = 0")
    case True
    then show ?thesis using Cons.prems by simp
  next
    case False
    then have "zero_scan cs (Suc k) = Some arm" using Cons.prems by simp
    from Cons.IH [OF this]
    have ih: "Suc k \<le> arm" "arm - Suc k < length cs" "cs ! (arm - Suc k) = 0"
      "\<forall>j<arm - Suc k. cs ! j \<noteq> 0" by auto
    have eq: "arm - k = Suc (arm - Suc k)" using ih(1) by simp
    show ?thesis using ih False by (auto simp: eq nth_Cons split: nat.splits)
  qed
qed

lemma collect_Inl:
  "collect rs = Inl e \<Longrightarrow> Inl e \<in> set rs"
  by (induction rs) (auto split: sum.splits)

lemma ucb_value_DivisionByZero:
  "ucb_value s n arm = Inl DivisionByZero \<longleftrightarrow> counts s ! arm = 0"
  by (simp add: ucb_value_def Let_def)

lemma argmax_not_Div: "argmax xs \<noteq> Inl DivisionByZero"
  by (simp add: argmax_def split: list.splits)

lemma ucb_select_arm_no_division_by_zero: "ucb_select_arm s g \<noteq> Inl DivisionByZero"
proof (cases "zero_scan (counts s) 0")
  case (Some arm)
  then show ?thesis by (simp add: ucb_select_arm_def)
next
  case None
  then have nz: "0 \<notin> set (counts s)" by (simp add: zero_scan_None)
  have "collect (map (ucb_value s (sum_list (counts s))) [0..<length (counts s)])
          \<noteq> Inl DivisionByZero"
  proof
    assume "collect (map (ucb_value s (sum_list (counts s))) [0..<length (counts s)])
          = Inl DivisionByZero"
    from collect_Inl [OF this] obtain arm where "arm < length (counts s)"
      "ucb_value s (sum_list (counts s)) arm = Inl DivisionByZero" by auto
    then have "counts s ! arm = 0" "arm < length (counts s)"
      by (simp_all add: ucb_value_DivisionByZero)
    then have "0 \<in> set (counts s)" by (metis nth_mem)
    with nz show False by simp
  qed
  then show ?thesis using None
    by (auto simp: ucb_select_arm_def Let_def argmax_not_Div split: sum.splits)
qed

text \<open>The play counts stay non-negative from \<^verbatim>\<open>initialize\<close> on.\<close>

lemma index_Inr: "index len a = Inr i \<Longrightarrow> i < len"
  by (auto simp: index_def Let_def split: if_splits)

lemma update_shape:
  assumes "update s a r = Inr s'"
  shows "\<exists>i<length (counts s). counts s' = (counts s)[i := counts s ! i + 1]
           \<and> kind s' = kind s \<and> length (values s') = length (values s)"
proof -
  from assms obtain i j where i: "index (length (counts s)) a = Inr i"
    and j: "index (length (values s)) a = Inr j"
    by (auto simp: update_eq eg_update_def Let_def split: sum.splits)
  from assms i j have "counts s' = (counts s)[i := counts s ! i + 1]" "kind s' = kind s"
    "length (values s') = length (values s)"
    by (auto simp: update_eq eg_update_def Let_def split: if_splits)
  then show ?thesis using index_Inr [OF i] by blast
qed

lemma update_counts_nonneg:
  assumes "update s a r = Inr s'" "\<forall>c\<in>set (counts s). 0 \<le> c"
  shows "\<forall>c\<in>set (counts s'). 0 \<le> c"
proof -
  from update_shape [OF assms(1)] obtain i where i: "i < length (counts s)"
    "counts s' = (counts s)[i := counts s ! i + 1]" by blast
  have "0 \<le> counts s ! i + 1" using assms(2) i(1) by (simp add: add_nonneg_nonneg)
  then show ?thesis using assms(2) i
    by (auto simp: set_conv_nth nth_list_update)
qed

lemma updates_counts_nonneg:
  "updates s calls = Inr s' \<Longrightarrow> \<forall>c\<in>set (counts s). 0 \<le> c \<Longrightarrow> \<forall>c\<in>set (counts s'). 0 \<le> c"
proof (induction calls arbitrary: s)
  case Nil
  then show ?case by simp
next
  case (Cons c calls)
  obtain a r where c: "c = (a, r)" by (cases c)
  from Cons.prems(1) c obtain s1 where s1: "update s a r = Inr s1" "updates s1 calls = Inr s'"
    by (auto split: sum.splits)
  from update_counts_nonneg [OF s1(1) Cons.prems(2)] Cons.IH [OF s1(2)]
  show ?case by blast
qed

text \<open>
  Claim C4. In \<^verbatim>\<open>UCB.select_arm\<close> the division by \<^verbatim>\<open>self.counts[arm]\<close> never divides by zero. In a
  state whose counts are non-negative (every state reached from \<^verbatim>\<open>initialize\<close> by updates),
  the bonus loop is reached, that is the zero-count scan finds nothing, only when every count
  is at least \<open>1\<close>; and whenever some arm has a zero count, the scan returns the first such
  arm before any bonus is computed.
\<close>

theorem ucb_bonus_counts_positive:
  assumes "kind s = UCB" and "\<forall>c\<in>set (counts s). 0 \<le> c"
  shows "select_arm s g \<noteq> Inl DivisionByZero
     \<and> (zero_scan (counts s) 0 = None \<longrightarrow>
          (\<forall>arm<length (counts s). 1 \<le> counts s ! arm
              \<and> ucb_value s (sum_list (counts s)) arm \<noteq> Inl DivisionByZero))
     \<and> (\<forall>arm<length (counts s). counts s ! arm = 0 \<longrightarrow>
          (\<exists>first\<le>arm. zero_scan (counts s) 0 = Some first \<and> counts s ! first = 0
              \<and> select_arm s g = Inr (int first, s, g)))"
proof (intro conjI impI allI)
  show "select_arm s g \<noteq> Inl DivisionByZero"
    using assms(1) ucb_select_arm_no_division_by_zero by (simp add: select_arm_def)
next
  fix arm assume none: "zero_scan (counts s) 0 = None" and arm: "arm < length (counts s)"
  then have "counts s ! arm \<noteq> 0" by (metis zero_scan_None nth_mem)
  moreover have "0 \<le> counts s ! arm" using assms(2) arm by simp
  ultimately show "1 \<le> counts s ! arm" by simp
  show "ucb_value s (sum_list (counts s)) arm \<noteq> Inl DivisionByZero"
    using \<open>counts s ! arm \<noteq> 0\<close> by (simp add: ucb_value_DivisionByZero)
next
  fix arm assume arm: "arm < length (counts s)" and z: "counts s ! arm = 0"
  then have "0 \<in> set (counts s)" by (metis nth_mem)
  then obtain first where f: "zero_scan (counts s) 0 = Some first"
    using zero_scan_None [of "counts s" 0] by (cases "zero_scan (counts s) 0") auto
  from zero_scan_Some [OF f] have p: "first < length (counts s)" "counts s ! first = 0"
    "\<forall>j<first. counts s ! j \<noteq> 0" by auto
  have "first \<le> arm" using p(3) z by (meson not_le)
  moreover have "select_arm s g = Inr (int first, s, g)"
    using assms(1) f by (simp add: select_arm_def ucb_select_arm_def)
  ultimately show "\<exists>first\<le>arm. zero_scan (counts s) 0 = Some first \<and> counts s ! first = 0
              \<and> select_arm s g = Inr (int first, s, g)"
    using f p(2) by blast
qed

theorem ucb_bonus_counts_positive_witness:
  "select_arm \<lparr>kind = UCB, counts = [2, 0, 0], values = [1, 0, 0]\<rparr> half_tape
     = Inr (1, \<lparr>kind = UCB, counts = [2, 0, 0], values = [1, 0, 0]\<rparr>, half_tape)
   \<and> zero_scan [2, 1, 1] 0 = None
   \<and> ucb_value \<lparr>kind = UCB, counts = [2, 1, 1], values = [1, 0, 0]\<rparr> 4 0 \<noteq> Inl DivisionByZero"
  using ucb_bonus_counts_positive [of "\<lparr>kind = UCB, counts = [2, 0, 0], values = [1, 0, 0]\<rparr>" half_tape]
    ucb_bonus_counts_positive [of "\<lparr>kind = UCB, counts = [2, 1, 1], values = [1, 0, 0]\<rparr>" half_tape]
  by (simp add: select_arm_def ucb_select_arm_def ucb_value_def)










section \<open>Properties of the harness\<close>






















section \<open>Precondition violations\<close>





end
